theory Spec2Isabelle
  imports Main "HOL-Library.Word"
begin

section \<open>The pool allocator of \<^verbatim>\<open>src/PoolAllocator.h\<close>\<close>

text \<open>
  The development embeds \<^verbatim>\<open>mcech::memory::PoolAllocator<T>\<close> as it is written in
  \<^verbatim>\<open>src/PoolAllocator.h\<close>. Pointers are natural numbers and \<open>0\<close> is \<^verbatim>\<open>nullptr\<close>.
  Every thread has one \<^verbatim>\<open>thread_local Pool pool\<close>; the address of that object is
  identified with the thread, so a \<^verbatim>\<open>Pool*\<close> is a thread identifier.
  \<^verbatim>\<open>size_type\<close> is \<^verbatim>\<open>size_t\<close>, taken as a 64-bit word, so that
  \<^verbatim>\<open>n * sizeof(Node)\<close> wraps as it does in C++.
\<close>

subsection \<open>Data\<close>

type_synonym addr = nat
type_synonym pool_ref = nat
type_synonym size_type = "64 word"

text \<open>
  The anonymous union of \<^verbatim>\<open>Node\<close>: either the bytes of a \<^verbatim>\<open>T\<close> (or bytes never
  written), or the \<^verbatim>\<open>next\<close> link.
\<close>

datatype union_t = Value | Next addr

record Node =
  un :: union_t
  pool :: pool_ref

text \<open>
  The template parameter enters the code through two sizes only. Both are parameters
  of the model.
\<close>

record type_info =
  sizeof_value_type :: size_type
  sizeof_Node :: size_type

text \<open>
  The global \<^verbatim>\<open>::operator new\<close> and \<^verbatim>\<open>::operator delete\<close> are the system allocator.
  Each call is recorded, with the byte size where the call passes one.
\<close>

datatype sys_call =
    New size_type addr
  | Delete addr "size_type option"

datatype error = bad_alloc | undefined_behaviour

text \<open>
  The state: the \<^verbatim>\<open>sentinel\<close> of every thread's \<^verbatim>\<open>Pool\<close>, the cells that are
  live (obtained from \<^verbatim>\<open>operator new(sizeof(Node))\<close> and not yet deleted), and the
  calls made to the system allocator so far, oldest first.
\<close>

record state =
  sentinel :: "pool_ref \<Rightarrow> addr"
  nodes :: "addr \<rightharpoonup> Node"
  sys_calls :: "sys_call list"

definition init :: state where
  "init = \<lparr>sentinel = (\<lambda>_. 0), nodes = Map.empty, sys_calls = []\<rparr>"

subsection \<open>The system allocator\<close>

text \<open>
  Which address \<^verbatim>\<open>operator new\<close> returns, or whether it throws, is decided outside
  the program: the answer \<open>r\<close> is an argument, \<open>None\<close> for \<^verbatim>\<open>std::bad_alloc\<close>.
\<close>

definition operator_new :: "size_type \<Rightarrow> addr option \<Rightarrow> state \<Rightarrow> error + (addr \<times> state)" where
  "operator_new sz r st =
     (case r of
        None \<Rightarrow> Inl bad_alloc
      | Some a \<Rightarrow> Inr (a, st\<lparr>sys_calls := sys_calls st @ [New sz a]\<rparr>))"

definition operator_delete :: "addr \<Rightarrow> size_type option \<Rightarrow> state \<Rightarrow> state" where
  "operator_delete p sz st =
     st\<lparr>nodes := (nodes st)(p := None), sys_calls := sys_calls st @ [Delete p sz]\<rparr>"

subsection \<open>\<^verbatim>\<open>Pool\<close>\<close>

definition load :: "pool_ref \<Rightarrow> state \<Rightarrow> addr" where
  "load q st = sentinel st q"

definition store :: "pool_ref \<Rightarrow> addr \<Rightarrow> state \<Rightarrow> state" where
  "store q v st = st\<lparr>sentinel := (sentinel st)(q := v)\<rparr>"

text \<open>
  One \<^verbatim>\<open>compare_exchange_weak\<close> on the sentinel of pool \<open>q\<close>: the outcome, the new
  value of the by-reference argument \<^verbatim>\<open>expected\<close>, and the new state. Spurious
  failures are not modelled.
\<close>

definition compare_exchange_weak ::
    "pool_ref \<Rightarrow> addr \<Rightarrow> addr \<Rightarrow> state \<Rightarrow> bool \<times> addr \<times> state" where
  "compare_exchange_weak q expected desired st =
     (if sentinel st q = expected then (True, expected, store q desired st)
      else (False, sentinel st q, st))"

text \<open>
  \<^verbatim>\<open>Pool::compare_exchange\<close>: the loop repeats the weak exchange, with the same
  \<^verbatim>\<open>desired\<close>, until it succeeds. It returns the final \<^verbatim>\<open>expected\<close>.
\<close>

function compare_exchange :: "pool_ref \<Rightarrow> addr \<Rightarrow> addr \<Rightarrow> state \<Rightarrow> addr \<times> state" where
  "compare_exchange q expected desired st =
     (case compare_exchange_weak q expected desired st of
        (True, e, st') \<Rightarrow> (e, st')
      | (False, e, st') \<Rightarrow> compare_exchange q e desired st')"
  by pat_completeness auto
termination
  by (relation "measure (\<lambda>(q, e, d, st). if sentinel st q = e then 0 else 1)")
     (auto simp: compare_exchange_weak_def split: if_splits)

declare compare_exchange.simps [simp del]

text \<open>Reading and writing \<^verbatim>\<open>node->next\<close>.\<close>

definition set_next :: "addr \<Rightarrow> addr \<Rightarrow> state \<Rightarrow> state" where
  "set_next p x st =
     (case nodes st p of
        None \<Rightarrow> st
      | Some c \<Rightarrow> st\<lparr>nodes := (nodes st)(p \<mapsto> c\<lparr>un := Next x\<rparr>)\<rparr>)"

text \<open>
  \<^verbatim>\<open>Pool::clear\<close>. The loop follows the links of the heap, so it is a partial
  function: \<open>None\<close> is a loop that does not end. Reading \<^verbatim>\<open>p->next\<close> from an
  address that is not a live cell, or from a cell whose union does not hold a link, is
  undefined behaviour.
\<close>

partial_function (option) clear_loop ::
    "pool_ref \<Rightarrow> addr \<Rightarrow> state \<Rightarrow> (error + state) option" where
  "clear_loop q p st =
     (if p \<noteq> 0 then
        (case nodes st p of
           None \<Rightarrow> Some (Inl undefined_behaviour)
         | Some c \<Rightarrow>
             (case un c of
                Value \<Rightarrow> Some (Inl undefined_behaviour)
              | Next nxt \<Rightarrow> clear_loop q nxt (operator_delete p None (store q nxt st))))
      else Some (Inr st))"

definition Pool_clear :: "pool_ref \<Rightarrow> state \<Rightarrow> (error + state) option" where
  "Pool_clear q st = clear_loop q (load q st) st"

text \<open>\<^verbatim>\<open>Pool::~Pool\<close> calls \<^verbatim>\<open>clear\<close> and nothing else.\<close>

definition Pool_dtor :: "pool_ref \<Rightarrow> state \<Rightarrow> (error + state) option" where
  "Pool_dtor q st = Pool_clear q st"

subsection \<open>\<^verbatim>\<open>PoolAllocator\<close>\<close>

text \<open>
  The facade has no data member. The member functions run on some thread; \<open>self\<close>
  is that thread's pool, the object the name \<^verbatim>\<open>pool\<close> denotes there.
\<close>

datatype PoolAllocator = PoolAllocator

definition allocate ::
    "type_info \<Rightarrow> pool_ref \<Rightarrow> size_type \<Rightarrow> addr option \<Rightarrow> state \<Rightarrow> error + (addr \<times> state)" where
  "allocate T self n r st =
     (if n = 1 then
        (let node = load self st in
         if node \<noteq> 0 then
           (case nodes st node of
              None \<Rightarrow> Inl undefined_behaviour
            | Some c \<Rightarrow>
                (case un c of
                   Value \<Rightarrow> Inl undefined_behaviour
                 | Next nxt \<Rightarrow> Inr (compare_exchange self node nxt st)))
         else
           (case operator_new (sizeof_Node T) r st of
              Inl e \<Rightarrow> Inl e
            | Inr (node', st') \<Rightarrow>
                Inr (node', st'\<lparr>nodes := (nodes st')(node' \<mapsto> \<lparr>un = Value, pool = self\<rparr>)\<rparr>)))
      else operator_new (n * sizeof_Node T) r st)"

text \<open>
  In \<^verbatim>\<open>deallocate\<close> the argument \<^verbatim>\<open>expected\<close> of \<^verbatim>\<open>compare_exchange\<close> is the
  field \<^verbatim>\<open>node->next\<close>, which holds the head just loaded; what the loop leaves in
  \<^verbatim>\<open>expected\<close> is written back to the field. The calling thread \<open>self\<close> is not
  read: the code does not mention \<^verbatim>\<open>pool\<close> here.
\<close>

definition deallocate ::
    "type_info \<Rightarrow> pool_ref \<Rightarrow> addr \<Rightarrow> size_type \<Rightarrow> state \<Rightarrow> error + state" where
  "deallocate T self p n st =
     (if p = 0 \<or> n = 0 then Inr st
      else if n = 1 then
        (case nodes st p of
           None \<Rightarrow> Inl undefined_behaviour
         | Some c \<Rightarrow>
             (let st1 = set_next p (load (pool c) st) st;
                  (e, st2) = compare_exchange (pool c) (load (pool c) st) p st1
              in Inr (set_next p e st2)))
      else Inr (operator_delete p (Some (n * sizeof_value_type T)) st))"

definition clear :: "pool_ref \<Rightarrow> state \<Rightarrow> (error + state) option" where
  "clear self st = Pool_clear self st"

definition operator_eq :: "PoolAllocator \<Rightarrow> PoolAllocator \<Rightarrow> bool" where
  "operator_eq lhs rhs = True"

subsection \<open>Free lists on the heap\<close>

text \<open>
  \<open>cells h p as\<close>: starting at \<open>p\<close> and following the \<^verbatim>\<open>next\<close> links of the heap
  \<open>h\<close>, one meets exactly the cells \<open>as\<close>, in this order, and then \<^verbatim>\<open>nullptr\<close>.
\<close>

fun cells :: "(addr \<rightharpoonup> Node) \<Rightarrow> addr \<Rightarrow> addr list \<Rightarrow> bool" where
  "cells h p [] = (p = 0)"
| "cells h p (a # as) =
     (p = a \<and> a \<noteq> 0 \<and>
      (case h a of
         None \<Rightarrow> False
       | Some c \<Rightarrow> (case un c of Value \<Rightarrow> False | Next x \<Rightarrow> cells h x as)))"

text \<open>The free list of pool \<open>q\<close> holds the cells \<open>as\<close>, most recently freed first.\<close>

definition free_list :: "state \<Rightarrow> pool_ref \<Rightarrow> addr list \<Rightarrow> bool" where
  "free_list st q as = cells (nodes st) (sentinel st q) as"

text \<open>Every cell of \<open>as\<close> is live and its back-reference \<^verbatim>\<open>pool\<close> is \<open>q\<close>.\<close>

definition stamped :: "state \<Rightarrow> pool_ref \<Rightarrow> addr list \<Rightarrow> bool" where
  "stamped st q as = list_all (\<lambda>a. map_option pool (nodes st a) = Some q) as"

subsection \<open>Interleaved executions\<close>

text \<open>
  For executions in which a pop and a push overlap, \<^verbatim>\<open>allocate(1)\<close> and
  \<^verbatim>\<open>deallocate(p, 1)\<close> are cut at their accesses to shared memory. A thread is at
  one of these points:
  \<^item> \<open>Alloc_load r\<close>: \<^verbatim>\<open>allocate(1)\<close> is about to run \<^verbatim>\<open>pool.load()\<close>; \<open>r\<close> is what
    the system allocator answers if it is asked;
  \<^item> \<open>Alloc_next node\<close>: the head was not null; the argument \<^verbatim>\<open>node->next\<close> of
    \<^verbatim>\<open>compare_exchange\<close> is about to be evaluated;
  \<^item> \<open>Alloc_cas expected desired\<close>: inside the loop of \<^verbatim>\<open>Pool::compare_exchange\<close>,
    where \<^verbatim>\<open>expected\<close> is the caller's variable \<^verbatim>\<open>node\<close>, passed by reference;
  \<^item> \<open>Alloc_done p\<close>: \<^verbatim>\<open>allocate\<close> has returned \<open>p\<close>;
  \<^item> \<open>Dealloc_load p\<close>: \<^verbatim>\<open>deallocate(p, 1)\<close> is about to run \<^verbatim>\<open>node->pool->load()\<close>;
  \<^item> \<open>Dealloc_store p h\<close>: the loaded head \<open>h\<close> is about to be written to
    \<^verbatim>\<open>node->next\<close>;
  \<^item> \<open>Dealloc_cas p\<close>: inside the loop of \<^verbatim>\<open>Pool::compare_exchange\<close>, where
    \<^verbatim>\<open>expected\<close> is the field \<^verbatim>\<open>node->next\<close> itself;
  \<^item> \<open>Dealloc_done\<close>: \<^verbatim>\<open>deallocate\<close> has returned;
  \<^item> \<open>Failed e\<close>: the call has thrown, or has run into undefined behaviour.
\<close>

datatype thread =
    Alloc_load "addr option"
  | Alloc_next addr
  | Alloc_cas addr addr
  | Alloc_done addr
  | Dealloc_load addr
  | Dealloc_store addr addr
  | Dealloc_cas addr
  | Dealloc_done
  | Failed error

fun step :: "type_info \<Rightarrow> pool_ref \<Rightarrow> thread \<Rightarrow> state \<Rightarrow> thread \<times> state" where
  "step T self (Alloc_load r) st =
     (let node = load self st in
      if node \<noteq> 0 then (Alloc_next node, st)
      else
        (case operator_new (sizeof_Node T) r st of
           Inl e \<Rightarrow> (Failed e, st)
         | Inr (node', st') \<Rightarrow>
             (Alloc_done node',
              st'\<lparr>nodes := (nodes st')(node' \<mapsto> \<lparr>un = Value, pool = self\<rparr>)\<rparr>)))"
| "step T self (Alloc_next node) st =
     (case nodes st node of
        None \<Rightarrow> (Failed undefined_behaviour, st)
      | Some c \<Rightarrow>
          (case un c of
             Value \<Rightarrow> (Failed undefined_behaviour, st)
           | Next nxt \<Rightarrow> (Alloc_cas node nxt, st)))"
| "step T self (Alloc_cas expected desired) st =
     (case compare_exchange_weak self expected desired st of
        (True, e, st') \<Rightarrow> (Alloc_done e, st')
      | (False, e, st') \<Rightarrow> (Alloc_cas e desired, st'))"
| "step T self (Dealloc_load p) st =
     (case nodes st p of
        None \<Rightarrow> (Failed undefined_behaviour, st)
      | Some c \<Rightarrow> (Dealloc_store p (load (pool c) st), st))"
| "step T self (Dealloc_store p h) st = (Dealloc_cas p, set_next p h st)"
| "step T self (Dealloc_cas p) st =
     (case nodes st p of
        None \<Rightarrow> (Failed undefined_behaviour, st)
      | Some c \<Rightarrow>
          (case un c of
             Value \<Rightarrow> (Failed undefined_behaviour, st)
           | Next expected \<Rightarrow>
               (case compare_exchange_weak (pool c) expected p st of
                  (True, e, st') \<Rightarrow> (Dealloc_done, st')
                | (False, e, st') \<Rightarrow> (Dealloc_cas p, set_next p e st'))))"
| "step T self th st = (th, st)"

text \<open>
  A system is the shared state and what every thread is doing. A schedule is the list
  of the threads that take the next step, in order.
\<close>

record system =
  threads :: "pool_ref \<Rightarrow> thread"
  shared :: state

definition sched :: "type_info \<Rightarrow> pool_ref \<Rightarrow> system \<Rightarrow> system" where
  "sched T t sys =
     (case step T t (threads sys t) (shared sys) of
        (th, st) \<Rightarrow> \<lparr>threads = (threads sys)(t := th), shared = st\<rparr>)"

fun run :: "type_info \<Rightarrow> pool_ref list \<Rightarrow> system \<Rightarrow> system" where
  "run T [] sys = sys"
| "run T (t # ts) sys = run T ts (sched T t sys)"

subsection \<open>Concrete inputs\<close>

text \<open>
  An element type of eight bytes where pointers have eight bytes: the union takes
  eight bytes and the back-reference eight more.
\<close>

definition T8 :: type_info where
  "T8 = \<lparr>sizeof_value_type = 8, sizeof_Node = 16\<rparr>"

text \<open>
  Thread \<open>0\<close> has obtained the cells \<open>2\<close>, \<open>1\<close> and \<open>3\<close>, and has given back \<open>2\<close> and
  then \<open>1\<close>: its free list is \<open>1, 2\<close> and the cell \<open>3\<close> is in use.
\<close>

definition two_cached_one_held :: state where
  "two_cached_one_held =
     \<lparr>sentinel = (\<lambda>_. 0)(0 := 1),
      nodes = [1 \<mapsto> \<lparr>un = Next 2, pool = 0\<rparr>, 2 \<mapsto> \<lparr>un = Next 0, pool = 0\<rparr>,
               3 \<mapsto> \<lparr>un = Value, pool = 0\<rparr>],
      sys_calls = [New 16 2, New 16 1, New 16 3]\<rparr>"

text \<open>
  Thread \<open>0\<close> starts \<^verbatim>\<open>allocate(1)\<close> while thread \<open>1\<close>, which was handed the cell \<open>3\<close>,
  starts \<^verbatim>\<open>deallocate(3, 1)\<close>.
\<close>

definition pop_races_push :: system where
  "pop_races_push =
     \<lparr>threads = (\<lambda>_. Dealloc_done)(0 := Alloc_load None, 1 := Dealloc_load 3),
      shared = two_cached_one_held\<rparr>"

subsection \<open>The invariant of the free lists\<close>

text \<open>
  \<open>F\<close> names, for every pool, the cells of its free list. The invariant: every free
  list is a chain that ends in \<^verbatim>\<open>nullptr\<close>, and every cell in the free list of a pool
  carries that pool as its back-reference.
\<close>

definition inv :: "state \<Rightarrow> (pool_ref \<Rightarrow> addr list) \<Rightarrow> bool" where
  "inv st F = (\<forall>q. free_list st q (F q) \<and> stamped st q (F q))"

subsection \<open>The revision of \<^verbatim>\<open>src/unnamed/part_000\<close>\<close>

text \<open>
  \<^verbatim>\<open>src/unnamed/part_000\<close> holds another revision of the same class: one shared pool
  for all threads, a \<^verbatim>\<open>Node\<close> that is the union alone, no back-reference, no
  \<^verbatim>\<open>clear\<close>. Of this revision only the path of \<^verbatim>\<open>deallocate\<close> and the two calls to
  the system allocator are embedded, to compare them with \<^verbatim>\<open>src/PoolAllocator.h\<close>.
  The loop of \<^verbatim>\<open>SharedPool::compare_exchange\<close> is written for a run without
  interference, where the first exchange succeeds.
\<close>

record shared_state =
  head :: addr
  links :: "addr \<rightharpoonup> union_t"
  calls :: "sys_call list"

definition alloc :: "type_info \<Rightarrow> size_type \<Rightarrow> addr option \<Rightarrow> shared_state \<Rightarrow> error + (addr \<times> shared_state)" where
  "alloc T n r st =
     (case r of
        None \<Rightarrow> Inl bad_alloc
      | Some a \<Rightarrow> Inr (a, st\<lparr>calls := calls st @ [New (n * sizeof_Node T) a]\<rparr>))"

definition dealloc :: "type_info \<Rightarrow> addr \<Rightarrow> size_type \<Rightarrow> shared_state \<Rightarrow> shared_state" where
  "dealloc T p n st =
     st\<lparr>links := (links st)(p := None),
        calls := calls st @ [Delete p (Some (n * sizeof_Node T))]\<rparr>"

definition add_to_shared_pool :: "addr \<Rightarrow> shared_state \<Rightarrow> error + shared_state" where
  "add_to_shared_pool p st =
     (if p = 0 then Inl undefined_behaviour
      else
        (case links st p of
           None \<Rightarrow> Inl undefined_behaviour
         | Some _ \<Rightarrow> Inr (st\<lparr>links := (links st)(p \<mapsto> Next (head st)), head := p\<rparr>)))"

definition deallocate_shared ::
    "type_info \<Rightarrow> addr \<Rightarrow> size_type \<Rightarrow> shared_state \<Rightarrow> error + shared_state" where
  "deallocate_shared T p n st =
     (if n = 1 then add_to_shared_pool p st else Inr (dealloc T p n st))"

section \<open>Properties\<close>

subsection \<open>Auxiliary facts\<close>

lemma compare_exchange_hit:
  "sentinel st q = e \<Longrightarrow> compare_exchange q e d st = (e, store q d st)"
  by (subst compare_exchange.simps) (simp add: compare_exchange_weak_def)

lemma set_next_live:
  "nodes st p = Some c \<Longrightarrow> set_next p x st = st\<lparr>nodes := (nodes st)(p \<mapsto> c\<lparr>un := Next x\<rparr>)\<rparr>"
  by (simp add: set_next_def)

lemma cells_unique: "cells h p as \<Longrightarrow> cells h p bs \<Longrightarrow> as = bs"
proof (induction as arbitrary: p bs)
  case Nil
  then show ?case by (cases bs) auto
next
  case (Cons a as)
  then show ?case
    by (cases bs) (auto split: option.splits union_t.splits)
qed

lemma cells_suffix:
  "cells h p as \<Longrightarrow> a \<in> set as \<Longrightarrow> \<exists>bs cs. as = bs @ a # cs \<and> cells h a (a # cs)"
proof (induction as arbitrary: p)
  case Nil
  then show ?case by simp
next
  case (Cons b as)
  show ?case
  proof (cases "a = b")
    case True
    with Cons.prems(1) have "cells h a (a # as)" by simp
    with True show ?thesis by (metis append_Nil)
  next
    case False
    with Cons.prems obtain c x where "h b = Some c" "un c = Next x" "cells h x as" "a \<in> set as"
      by (auto split: option.splits union_t.splits)
    from Cons.IH [OF this(3,4)] obtain bs cs where "as = bs @ a # cs" "cells h a (a # cs)"
      by blast
    then have "b # as = (b # bs) @ a # cs" by simp
    with \<open>cells h a (a # cs)\<close> show ?thesis by blast
  qed
qed

text \<open>A chain of links that ends in \<^verbatim>\<open>nullptr\<close> meets no cell twice.\<close>

lemma cells_head_notin_tail: "cells h p (a # as) \<Longrightarrow> a \<notin> set as"
proof
  assume c: "cells h p (a # as)" and m: "a \<in> set as"
  from c have ca: "cells h a (a # as)" by simp
  from c obtain n x where n: "h a = Some n" "un n = Next x" "cells h x as"
    by (auto split: option.splits union_t.splits)
  from cells_suffix [OF n(3) m] obtain bs cs where d: "as = bs @ a # cs" "cells h a (a # cs)"
    by blast
  from cells_unique [OF ca d(2)] have "as = cs" by simp
  with d(1) show False by simp
qed

lemma cells_distinct: "cells h p as \<Longrightarrow> distinct as"
proof (induction as arbitrary: p)
  case Nil
  then show ?case by simp
next
  case (Cons a as)
  from Cons.prems have "a \<notin> set as" by (rule cells_head_notin_tail)
  moreover from Cons.prems obtain x where "cells h x as"
    by (auto split: option.splits union_t.splits)
  ultimately show ?case using Cons.IH by simp
qed

lemma cells_upd_notin: "a \<notin> set as \<Longrightarrow> cells (h(a := v)) p as = cells h p as"
  by (induction as arbitrary: p) (auto split: option.splits union_t.splits)

text \<open>
  The loop of \<^verbatim>\<open>Pool::clear\<close> ends on every chain that ends in \<^verbatim>\<open>nullptr\<close>, having
  deleted the cells of the chain in order.
\<close>

lemma clear_loop_cells:
  "cells (nodes st) p as \<Longrightarrow>
   clear_loop q p st =
     Some (Inr (st\<lparr>sentinel := (if as = [] then sentinel st else (sentinel st)(q := 0)),
                     nodes := (\<lambda>a. if a \<in> set as then None else nodes st a),
                     sys_calls := sys_calls st @ map (\<lambda>a. Delete a None) as\<rparr>))"
proof (induction as arbitrary: p st)
  case Nil
  then show ?case by (subst clear_loop.simps) simp
next
  case (Cons a as)
  from Cons.prems obtain c x where
    c: "p = a" "a \<noteq> 0" "nodes st a = Some c" "un c = Next x" "cells (nodes st) x as"
    by (auto split: option.splits union_t.splits)
  from Cons.prems have na: "a \<notin> set as" by (rule cells_head_notin_tail)
  let ?st = "operator_delete a None (store q x st)"
  have "cells (nodes ?st) x as"
    using c(5) na by (simp add: operator_delete_def store_def cells_upd_notin)
  from Cons.IH [OF this] have
    "clear_loop q x ?st =
       Some (Inr (?st\<lparr>sentinel := (if as = [] then sentinel ?st else (sentinel ?st)(q := 0)),
                       nodes := (\<lambda>b. if b \<in> set as then None else nodes ?st b),
                       sys_calls := sys_calls ?st @ map (\<lambda>a. Delete a None) as\<rparr>))" .
  moreover have "as = [] \<Longrightarrow> x = 0" using c(5) by simp
  ultimately show ?case
    using c by (subst clear_loop.simps) (auto simp: operator_delete_def store_def fun_eq_iff)
qed

text \<open>
  The pointer that \<^verbatim>\<open>allocate(1)\<close> returns depends on the sentinels and the cells
  only, not on the record of the calls to the system allocator.
\<close>

lemma allocate_one_pointer_frame:
  assumes "sentinel st' = sentinel st" and "nodes st' = nodes st"
  shows "map_sum id fst (allocate T t 1 r st') = map_sum id fst (allocate T t 1 r st)"
proof (cases "sentinel st t = 0")
  case True
  with assms show ?thesis
    by (cases r) (simp_all add: allocate_def load_def operator_new_def)
next
  case False
  show ?thesis
  proof (cases "nodes st (sentinel st t)")
    case None
    with False assms show ?thesis by (simp add: allocate_def load_def)
  next
    case (Some c)
    with False assms show ?thesis
      by (cases "un c") (simp_all add: allocate_def load_def compare_exchange_hit)
  qed
qed

lemma two_cached_one_held_free_list: "free_list two_cached_one_held 0 [1, 2]"
  by (simp add: free_list_def two_cached_one_held_def)

lemma two_cached_one_held_stamped: "stamped two_cached_one_held 0 [1, 2]"
  by (simp add: stamped_def two_cached_one_held_def)

lemma free_list_push:
  assumes "nodes st p = Some c" and "p \<noteq> 0" and "free_list st (pool c) as" and "p \<notin> set as"
  shows "free_list (st\<lparr>sentinel := (sentinel st)(pool c := p),
                       nodes := (nodes st)(p \<mapsto> c\<lparr>un := Next (sentinel st (pool c))\<rparr>)\<rparr>)
           (pool c) (p # as)"
  using assms by (simp add: free_list_def cells_upd_notin)

lemma clear_result:
  assumes "free_list st self as"
  shows "clear self st =
           Some (Inr (st\<lparr>sentinel := (sentinel st)(self := 0),
                           nodes := (\<lambda>a. if a \<in> set as then None else nodes st a),
                           sys_calls := sys_calls st @ map (\<lambda>a. Delete a None) as\<rparr>))"
proof -
  from assms have c: "cells (nodes st) (load self st) as"
    by (simp add: free_list_def load_def)
  have "as = [] \<Longrightarrow> (sentinel st)(self := 0) = sentinel st"
    using assms by (auto simp: free_list_def)
  then show ?thesis
    by (auto simp: clear_def Pool_clear_def clear_loop_cells [OF c])
qed

lemma bulk_sizes:
  assumes "n \<noteq> 1" and "n \<noteq> 0" and "a \<noteq> 0"
  shows "\<exists>st1 st2. allocate T self n (Some a) st = Inr (a, st1) \<and>
           deallocate T caller a n st1 = Inr st2 \<and>
           sys_calls st2 =
             sys_calls st @ [New (n * sizeof_Node T) a, Delete a (Some (n * sizeof_value_type T))]"
  using assms by (simp add: allocate_def deallocate_def operator_new_def operator_delete_def)

subsection \<open>The invariant is kept\<close>

text \<open>
  The invariant holds at the start and is kept by \<^verbatim>\<open>allocate(1)\<close>, by
  \<^verbatim>\<open>deallocate(p, 1)\<close> of a live cell that is not in its pool's free list, and by
  \<^verbatim>\<open>clear\<close>. For \<^verbatim>\<open>allocate\<close> the system allocator is taken to answer with an
  address that is neither null nor a live cell.
\<close>

lemma inv_init: "inv init (\<lambda>_. [])"
  by (simp add: inv_def free_list_def stamped_def init_def)

lemma stamped_mem: "stamped st q as \<Longrightarrow> a \<in> set as \<Longrightarrow> \<exists>c. nodes st a = Some c \<and> pool c = q"
  by (auto simp: stamped_def list_all_iff)

lemma cells_restrict:
  "set as \<inter> S = {} \<Longrightarrow> cells (\<lambda>a. if a \<in> S then None else h a) p as = cells h p as"
  by (induction as arbitrary: p) (auto split: option.splits union_t.splits)

lemma allocate_one_preserves:
  assumes i: "inv st F" and a: "allocate T self 1 r st = Inr (p, st')"
    and r: "\<forall>a. r = Some a \<longrightarrow> a \<noteq> 0 \<and> nodes st a = None"
  shows "inv st' (F(self := tl (F self))) \<and> p \<noteq> 0 \<and>
         map_option pool (nodes st' p) = Some self \<and>
         (\<forall>q. p \<notin> set ((F(self := tl (F self))) q))"
proof (cases "F self")
  case Nil
  from i have "free_list st self (F self)" by (simp add: inv_def)
  with Nil have s: "sentinel st self = 0" by (simp add: free_list_def)
  with a obtain b where b: "r = Some b" "p = b"
    "st' = st\<lparr>nodes := (nodes st)(b \<mapsto> \<lparr>un = Value, pool = self\<rparr>),
              sys_calls := sys_calls st @ [New (sizeof_Node T) b]\<rparr>"
    by (cases r) (auto simp: allocate_def load_def operator_new_def)
  with r have f: "b \<noteq> 0" "nodes st b = None" by auto
  have out: "b \<notin> set (F q)" for q
    using i f(2) stamped_mem [of st q "F q" b] by (auto simp: inv_def)
  have "free_list st' q (F q) \<and> stamped st' q (F q)" for q
    using i out [of q] b(3)
    by (auto simp: inv_def free_list_def stamped_def cells_upd_notin list_all_iff)
  moreover have "F(self := tl (F self)) = F" using Nil by auto
  ultimately show ?thesis using b f out by (simp add: inv_def)
next
  case (Cons b bs)
  from i have "free_list st self (F self)" "stamped st self (F self)" by (simp_all add: inv_def)
  with Cons have fl: "cells (nodes st) (sentinel st self) (b # bs)" and sb: "stamped st self (b # bs)"
    by (simp_all add: free_list_def)
  from fl obtain c x where c: "sentinel st self = b" "b \<noteq> 0" "nodes st b = Some c"
    "un c = Next x" "cells (nodes st) x bs"
    by (auto split: option.splits union_t.splits)
  from sb c have pc: "pool c = self" by (simp add: stamped_def)
  from a c have p: "p = b" "st' = st\<lparr>sentinel := (sentinel st)(self := x)\<rparr>"
    by (auto simp: allocate_def load_def compare_exchange_hit store_def)
  have nb: "b \<notin> set bs" using fl by (rule cells_head_notin_tail)
  have other: "b \<notin> set (F q)" if "q \<noteq> self" for q
    using i stamped_mem [of st q "F q" b] c(3) pc that by (auto simp: inv_def)
  have "free_list st' q ((F(self := bs)) q) \<and> stamped st' q ((F(self := bs)) q)" for q
    using i c(5) sb p(2) by (auto simp: inv_def free_list_def stamped_def)
  then show ?thesis
    using Cons p c pc nb other by (auto simp: inv_def)
qed

lemma deallocate_one_preserves:
  assumes i: "inv st F" and c: "nodes st p = Some c" and n: "p \<noteq> 0"
    and out: "p \<notin> set (F (pool c))"
  shows "\<exists>st'. deallocate T caller p 1 st = Inr st' \<and> inv st' (F(pool c := p # F (pool c)))"
proof -
  let ?st = "st\<lparr>sentinel := (sentinel st)(pool c := p),
                 nodes := (nodes st)(p \<mapsto> c\<lparr>un := Next (sentinel st (pool c))\<rparr>)\<rparr>"
  have d: "deallocate T caller p 1 st = Inr ?st"
    using c n by (simp add: deallocate_def load_def set_next_live compare_exchange_hit store_def)
  have notin: "p \<notin> set (F q)" for q
  proof (cases "q = pool c")
    case True
    with out show ?thesis by simp
  next
    case False
    then show ?thesis using i stamped_mem [of st q "F q" p] c by (auto simp: inv_def)
  qed
  have "free_list ?st q ((F(pool c := p # F (pool c))) q) \<and>
        stamped ?st q ((F(pool c := p # F (pool c))) q)" for q
  proof (cases "q = pool c")
    case True
    from i have "free_list st (pool c) (F (pool c))" "stamped st (pool c) (F (pool c))"
      by (auto simp: inv_def)
    with True c n out show ?thesis
      using free_list_push [OF c n _ out]
      by (auto simp: stamped_def list_all_iff)
  next
    case False
    with i notin [of q] show ?thesis
      by (auto simp: inv_def free_list_def stamped_def cells_upd_notin list_all_iff)
  qed
  with d show ?thesis by (auto simp: inv_def)
qed

lemma clear_preserves:
  assumes i: "inv st F"
  shows "\<exists>st'. clear self st = Some (Inr st') \<and> inv st' (F(self := []))"
proof -
  let ?st = "st\<lparr>sentinel := (sentinel st)(self := 0),
                 nodes := (\<lambda>a. if a \<in> set (F self) then None else nodes st a),
                 sys_calls := sys_calls st @ map (\<lambda>a. Delete a None) (F self)\<rparr>"
  from i have "free_list st self (F self)" by (simp add: inv_def)
  then have c: "clear self st = Some (Inr ?st)" by (rule clear_result)
  have disj: "set (F q) \<inter> set (F self) = {}" if "q \<noteq> self" for q
    using i stamped_mem [of st q "F q"] stamped_mem [of st self "F self"] that
    by (fastforce simp: inv_def)
  have "free_list ?st q ((F(self := [])) q) \<and> stamped ?st q ((F(self := [])) q)" for q
  proof (cases "q = self")
    case True
    then show ?thesis by (simp add: free_list_def stamped_def)
  next
    case False
    with i disj [OF False] show ?thesis
      by (auto simp: inv_def free_list_def stamped_def cells_restrict list_all_iff)
  qed
  with c show ?thesis by (auto simp: inv_def)
qed

subsection \<open>Steps and whole calls\<close>

text \<open>
  A thread that takes its steps without another thread in between does what the whole
  call does. The state \<open>two_cached_one_held\<close> is the result of five calls from the
  empty state.
\<close>

lemma run_alone_allocate:
  assumes "threads sys t = Alloc_load r" and "allocate T t 1 r (shared sys) = Inr (p, st')"
  shows "run T [t, t, t] sys = \<lparr>threads = (threads sys)(t := Alloc_done p), shared = st'\<rparr>"
  using assms
  by (auto simp: sched_def allocate_def load_def Let_def compare_exchange_hit
      compare_exchange_weak_def store_def
      split: option.splits union_t.splits sum.splits if_splits)

lemma run_alone_deallocate:
  assumes "threads sys t = Dealloc_load p" and "p \<noteq> 0"
    and "deallocate T t p 1 (shared sys) = Inr st'"
  shows "run T [t, t, t] sys = \<lparr>threads = (threads sys)(t := Dealloc_done), shared = st'\<rparr>"
  using assms
  by (auto simp: sched_def deallocate_def load_def Let_def compare_exchange_hit
      compare_exchange_weak_def store_def set_next_def
      split: option.splits union_t.splits sum.splits if_splits)

lemma two_cached_one_held_reachable:
  "\<exists>s1 s2 s3 s4.
     allocate T8 0 1 (Some 2) init = Inr (2, s1) \<and>
     allocate T8 0 1 (Some 1) s1 = Inr (1, s2) \<and>
     allocate T8 0 1 (Some 3) s2 = Inr (3, s3) \<and>
     deallocate T8 0 2 1 s3 = Inr s4 \<and>
     deallocate T8 0 1 1 s4 = Inr two_cached_one_held"
  by (auto simp: allocate_def deallocate_def load_def operator_new_def init_def T8_def
      set_next_def compare_exchange_hit store_def two_cached_one_held_def fun_eq_iff)

subsection \<open>The revision with the shared pool\<close>

text \<open>
  In \<^verbatim>\<open>src/unnamed/part_000\<close>, \<^verbatim>\<open>deallocate\<close> has no test for a null pointer or a
  count of zero, and the bulk path passes \<^verbatim>\<open>n * sizeof(Node)\<close> to the system
  allocator both when it requests and when it releases.
\<close>

lemma deallocate_shared_zero:
  "deallocate_shared T p 0 st =
     Inr (st\<lparr>links := (links st)(p := None), calls := calls st @ [Delete p (Some 0)]\<rparr>)"
  by (simp add: deallocate_shared_def dealloc_def)

lemma deallocate_shared_null: "deallocate_shared T 0 1 st = Inl undefined_behaviour"
  by (simp add: deallocate_shared_def add_to_shared_pool_def)

lemma shared_bulk_sizes_agree:
  assumes "n \<noteq> 1" and "alloc T n (Some a) st = Inr (a, st1)"
  shows "\<exists>st2. deallocate_shared T a n st1 = Inr st2 \<and>
           calls st2 = calls st @ [New (n * sizeof_Node T) a, Delete a (Some (n * sizeof_Node T))]"
  using assms by (auto simp: alloc_def deallocate_shared_def dealloc_def)

subsection \<open>Claims\<close>

text \<open>
  C1. Round-trip recycling. Let the free list of the calling thread be well formed and
  its cells carry this thread's pool as back-reference, and let the system allocator
  not answer with the null pointer. If \<^verbatim>\<open>allocate(1)\<close> returns \<open>p\<close>, then
  \<^verbatim>\<open>deallocate(p, 1)\<close> succeeds, and the next \<^verbatim>\<open>allocate(1)\<close> of the thread returns the
  same address \<open>p\<close>, whatever the system allocator would answer, and without calling
  it.
\<close>

theorem round_trip_recycling:
  assumes "free_list st self as" and "stamped st self as"
    and "r1 \<noteq> Some 0"
    and "allocate T self 1 r1 st = Inr (p, st1)"
  shows "\<exists>st2 st3. deallocate T self p 1 st1 = Inr st2 \<and>
           allocate T self 1 r2 st2 = Inr (p, st3) \<and>
           sys_calls st3 = sys_calls st1"
proof (cases as)
  case Nil
  with assms(1) have "sentinel st self = 0" by (simp add: free_list_def)
  with assms(3,4) show ?thesis
    by (cases r1)
       (auto simp: allocate_def load_def operator_new_def deallocate_def set_next_live
          compare_exchange_hit store_def)
next
  case (Cons a bs)
  with assms(1,2) obtain c x where
    "sentinel st self = a" "a \<noteq> 0" "nodes st a = Some c" "un c = Next x" "pool c = self"
    by (auto simp: free_list_def stamped_def split: option.splits union_t.splits)
  with assms(4) show ?thesis
    by (auto simp: allocate_def load_def deallocate_def set_next_live
          compare_exchange_hit store_def Let_def)
qed

theorem round_trip_recycling_witness:
  "free_list two_cached_one_held 0 [1, 2] \<and> stamped two_cached_one_held 0 [1, 2] \<and>
   (None :: addr option) \<noteq> Some 0 \<and>
   allocate T8 0 1 None two_cached_one_held =
     Inr (1, two_cached_one_held\<lparr>sentinel := (\<lambda>_. 0)(0 := 2)\<rparr>) \<and>
   (\<exists>st2 st3.
      deallocate T8 0 1 1 (two_cached_one_held\<lparr>sentinel := (\<lambda>_. 0)(0 := 2)\<rparr>) = Inr st2 \<and>
      allocate T8 0 1 None st2 = Inr (1, st3) \<and>
      sys_calls st3 = sys_calls (two_cached_one_held\<lparr>sentinel := (\<lambda>_. 0)(0 := 2)\<rparr>))"
proof -
  have n: "(None :: addr option) \<noteq> Some 0" by simp
  have a: "allocate T8 0 1 None two_cached_one_held =
      Inr (1, two_cached_one_held\<lparr>sentinel := (\<lambda>_. 0)(0 := 2)\<rparr>)"
    by (simp add: allocate_def load_def compare_exchange_hit store_def two_cached_one_held_def)
  from round_trip_recycling
    [OF two_cached_one_held_free_list two_cached_one_held_stamped n a, of None]
  show ?thesis
    using two_cached_one_held_free_list two_cached_one_held_stamped n a by blast
qed

text \<open>
  C2. For \<open>n \<noteq> 1\<close>, the byte size passed to the system allocator on release should
  equal the byte size requested on allocation. In \<^verbatim>\<open>src/PoolAllocator.h\<close> it does
  not: \<^verbatim>\<open>allocate\<close> requests \<^verbatim>\<open>n * sizeof(Node)\<close> bytes and \<^verbatim>\<open>deallocate\<close> releases
  with \<^verbatim>\<open>n * sizeof(value_type)\<close>. For two elements of eight bytes, 32 bytes are
  requested and the block is released with size 16.
\<close>

theorem bulk_release_size_differs:
  "\<exists>st1 st2. allocate T8 0 2 (Some 64) init = Inr (64, st1) \<and>
     deallocate T8 0 64 2 st1 = Inr st2 \<and>
     sys_calls st2 = [New 32 64, Delete 64 (Some 16)]"
  by (simp add: allocate_def deallocate_def operator_new_def operator_delete_def init_def T8_def)

text \<open>
  C3. \<^verbatim>\<open>deallocate(p, 1)\<close> of a live cell \<open>p\<close> makes \<open>p\<close> the head of the pool that
  the cell's back-reference names, with the old head of that pool as its \<^verbatim>\<open>next\<close>
  link. The result does not depend on the calling thread; when the caller's pool is
  another one, the caller's sentinel stays as it was. When \<open>p\<close> is not yet in the free
  list \<open>as\<close> of its pool, the free list becomes \<open>p # as\<close>.
\<close>

theorem deallocate_one_back_reference:
  assumes "p \<noteq> 0" and "nodes st p = Some c"
  shows "\<exists>st'. deallocate T caller p 1 st = Inr st' \<and>
           sentinel st' = (sentinel st)(pool c := p) \<and>
           nodes st' = (nodes st)(p \<mapsto> c\<lparr>un := Next (sentinel st (pool c))\<rparr>) \<and>
           sys_calls st' = sys_calls st \<and>
           (caller \<noteq> pool c \<longrightarrow> sentinel st' caller = sentinel st caller) \<and>
           (\<forall>as. free_list st (pool c) as \<and> p \<notin> set as \<longrightarrow> free_list st' (pool c) (p # as))"
proof -
  let ?st = "st\<lparr>sentinel := (sentinel st)(pool c := p),
                 nodes := (nodes st)(p \<mapsto> c\<lparr>un := Next (sentinel st (pool c))\<rparr>)\<rparr>"
  have "deallocate T caller p 1 st = Inr ?st"
    using assms
    by (simp add: deallocate_def load_def set_next_live compare_exchange_hit store_def)
  moreover have "\<forall>as. free_list st (pool c) as \<and> p \<notin> set as \<longrightarrow> free_list ?st (pool c) (p # as)"
    using assms free_list_push by blast
  ultimately show ?thesis by simp
qed

theorem deallocate_one_back_reference_witness:
  "(3::addr) \<noteq> 0 \<and> nodes two_cached_one_held 3 = Some \<lparr>un = Value, pool = 0\<rparr> \<and>
   (\<exists>st'. deallocate T8 1 3 1 two_cached_one_held = Inr st' \<and>
      sentinel st' 0 = 3 \<and> sentinel st' 1 = sentinel two_cached_one_held 1 \<and>
      free_list st' 0 [3, 1, 2])"
proof -
  have n: "(3::addr) \<noteq> 0" by simp
  have c: "nodes two_cached_one_held 3 = Some \<lparr>un = Value, pool = 0\<rparr>"
    by (simp add: two_cached_one_held_def)
  have "(3::addr) \<notin> set [1, 2]" by simp
  with deallocate_one_back_reference [OF n c, of T8 1] two_cached_one_held_free_list
  show ?thesis using n c by fastforce
qed

text \<open>
  C4. \<^verbatim>\<open>deallocate(p, n)\<close> with \<open>p\<close> null or \<open>n = 0\<close> returns with the whole state
  as it was: no sentinel and no cell is changed, and the system allocator is not
  called.
\<close>

theorem deallocate_null_or_zero_noop:
  "p = 0 \<or> n = 0 \<Longrightarrow> deallocate T self p n st = Inr st"
  by (auto simp: deallocate_def)

theorem deallocate_null_or_zero_noop_witness:
  "((0::addr) = 0 \<or> (1::size_type) = 0) \<and> ((3::addr) = 0 \<or> (0::size_type) = 0) \<and>
   deallocate T8 0 0 1 two_cached_one_held = Inr two_cached_one_held \<and>
   deallocate T8 0 3 0 two_cached_one_held = Inr two_cached_one_held"
  using deallocate_null_or_zero_noop [of 0 1 T8 0 two_cached_one_held]
    deallocate_null_or_zero_noop [of 3 0 T8 0 two_cached_one_held]
  by simp

text \<open>
  C5. \<^verbatim>\<open>allocate(1)\<close> on a pool whose head is a cell holding a link returns that head
  and sets the sentinel to the cell's \<^verbatim>\<open>next\<close>; nothing else changes. On a pool whose
  sentinel is null it asks the system allocator for one block of \<^verbatim>\<open>sizeof(Node)\<close>
  bytes; when that fails it throws \<^verbatim>\<open>bad_alloc\<close>, otherwise the new cell gets the
  caller's pool as back-reference and is returned.
\<close>

theorem allocate_one_hit_or_miss:
  "(sentinel st self \<noteq> 0 \<and> nodes st (sentinel st self) = Some c \<and> un c = Next nxt \<longrightarrow>
      allocate T self 1 r st =
        Inr (sentinel st self, st\<lparr>sentinel := (sentinel st)(self := nxt)\<rparr>)) \<and>
   (sentinel st self = 0 \<longrightarrow>
      allocate T self 1 None st = Inl bad_alloc \<and>
      allocate T self 1 (Some a) st =
        Inr (a, st\<lparr>nodes := (nodes st)(a \<mapsto> \<lparr>un = Value, pool = self\<rparr>),
                    sys_calls := sys_calls st @ [New (sizeof_Node T) a]\<rparr>))"
  by (simp add: allocate_def load_def compare_exchange_hit store_def operator_new_def)

theorem allocate_one_hit_or_miss_witness:
  "sentinel two_cached_one_held 0 \<noteq> 0 \<and>
   nodes two_cached_one_held (sentinel two_cached_one_held 0) = Some \<lparr>un = Next 2, pool = 0\<rparr> \<and>
   allocate T8 0 1 None two_cached_one_held =
     Inr (1, two_cached_one_held\<lparr>sentinel := (sentinel two_cached_one_held)(0 := 2)\<rparr>) \<and>
   sentinel init 0 = 0 \<and>
   allocate T8 0 1 None init = Inl bad_alloc \<and>
   allocate T8 0 1 (Some 7) init =
     Inr (7, init\<lparr>nodes := (nodes init)(7 \<mapsto> \<lparr>un = Value, pool = 0\<rparr>),
                 sys_calls := sys_calls init @ [New 16 7]\<rparr>)"
  using allocate_one_hit_or_miss
      [of two_cached_one_held 0 "\<lparr>un = Next 2, pool = 0\<rparr>" 2 T8 None]
    allocate_one_hit_or_miss [of init 0 _ _ T8 _ 7]
  by (simp add: two_cached_one_held_def init_def T8_def)

text \<open>
  C6. When the free list of the calling thread holds the cells \<open>as\<close>, \<^verbatim>\<open>clear()\<close>
  terminates, calls \<^verbatim>\<open>operator delete\<close> once for each cell of \<open>as\<close>, in order, and
  for nothing else, removes exactly these cells from the live cells, and leaves the
  sentinel null. The destructor of the pool does the same.
\<close>

theorem clear_releases_free_list:
  assumes "free_list st self as"
  shows "clear self st =
           Some (Inr (st\<lparr>sentinel := (sentinel st)(self := 0),
                           nodes := (\<lambda>a. if a \<in> set as then None else nodes st a),
                           sys_calls := sys_calls st @ map (\<lambda>a. Delete a None) as\<rparr>)) \<and>
         Pool_dtor self st = clear self st"
  using clear_result [OF assms] by (simp add: Pool_dtor_def clear_def)

theorem clear_releases_free_list_witness:
  "free_list two_cached_one_held 0 [1, 2] \<and>
   clear 0 two_cached_one_held =
     Some (Inr \<lparr>sentinel = (\<lambda>_. 0), nodes = [3 \<mapsto> \<lparr>un = Value, pool = 0\<rparr>],
                sys_calls = [New 16 2, New 16 1, New 16 3, Delete 1 None, Delete 2 None]\<rparr>) \<and>
   Pool_dtor 0 two_cached_one_held = clear 0 two_cached_one_held"
  using clear_releases_free_list [OF two_cached_one_held_free_list]
  by (auto simp: two_cached_one_held_def free_list_def fun_eq_iff)

text \<open>
  C7. For \<open>n > 1\<close>, when the system allocator answers \<^verbatim>\<open>allocate(n)\<close> with an address
  that is not a live cell, \<^verbatim>\<open>allocate(n)\<close> followed by \<^verbatim>\<open>deallocate(p, n)\<close> of that
  block leaves every sentinel and every cell as it was, and a later \<^verbatim>\<open>allocate(1)\<close>
  on any thread returns the pointer (or the failure) it would have returned without
  the pair, for the same answer of the system allocator.
\<close>

theorem bulk_leaves_cache_unchanged:
  assumes "1 < n" and "nodes st a = None"
  shows "\<exists>st1 st2. allocate T self n (Some a) st = Inr (a, st1) \<and>
           deallocate T caller a n st1 = Inr st2 \<and>
           sentinel st2 = sentinel st \<and> nodes st2 = nodes st \<and>
           (\<forall>t r. map_sum id fst (allocate T t 1 r st2) = map_sum id fst (allocate T t 1 r st))"
proof -
  from assms(1) have n: "n \<noteq> 1" "n \<noteq> 0" by auto
  define st1 where "st1 = st\<lparr>sys_calls := sys_calls st @ [New (n * sizeof_Node T) a]\<rparr>"
  define st2 where "st2 = (if a = 0 then st1
     else operator_delete a (Some (n * sizeof_value_type T)) st1)"
  have a: "allocate T self n (Some a) st = Inr (a, st1)"
    using n by (simp add: allocate_def operator_new_def st1_def)
  have d: "deallocate T caller a n st1 = Inr st2"
    using n by (simp add: deallocate_def st2_def)
  have s: "sentinel st2 = sentinel st"
    by (simp add: st2_def st1_def operator_delete_def)
  have h: "nodes st2 = nodes st"
    using assms(2) by (auto simp: st2_def st1_def operator_delete_def)
  from a d s h allocate_one_pointer_frame [OF s h] show ?thesis by blast
qed

theorem bulk_leaves_cache_unchanged_witness:
  "(1::size_type) < 2 \<and> nodes two_cached_one_held 9 = None \<and>
   (\<exists>st1 st2. allocate T8 0 2 (Some 9) two_cached_one_held = Inr (9, st1) \<and>
      deallocate T8 0 9 2 st1 = Inr st2 \<and>
      sentinel st2 = sentinel two_cached_one_held \<and> nodes st2 = nodes two_cached_one_held \<and>
      (\<forall>t r. map_sum id fst (allocate T8 t 1 r st2) =
             map_sum id fst (allocate T8 t 1 r two_cached_one_held)))"
proof -
  have n: "(1::size_type) < 2" by simp
  have f: "nodes two_cached_one_held 9 = None" by (simp add: two_cached_one_held_def)
  from bulk_leaves_cache_unchanged [OF n f, of T8 0 0] show ?thesis using n f by blast
qed

text \<open>
  C8. \<^verbatim>\<open>operator==\<close> on two allocators is true. It reads neither its arguments nor
  the state.
\<close>

theorem operator_eq_always_true: "operator_eq lhs rhs = True"
  by (simp add: operator_eq_def)

text \<open>
  C9. Pushes and pops on one pool should be linearizable, and no cell should be lost.
  In \<^verbatim>\<open>src/PoolAllocator.h\<close> a pop that overlaps a push loses a cell:
  \<^verbatim>\<open>Pool::compare_exchange\<close> retries with the \<^verbatim>\<open>desired\<close> it was called with, the
  \<^verbatim>\<open>next\<close> of the head it loaded first. The free list of thread \<open>0\<close> is \<open>1, 2\<close>.
  Thread \<open>0\<close> loads the head \<open>1\<close> and reads its link \<open>2\<close>; thread \<open>1\<close> pushes the cell
  \<open>3\<close>; the exchange of thread \<open>0\<close> fails and sets its \<^verbatim>\<open>node\<close> to \<open>3\<close>; the second
  exchange succeeds and sets the sentinel to \<open>2\<close>. \<^verbatim>\<open>allocate\<close> returns \<open>3\<close>, the free
  list is \<open>2\<close>, and the cell \<open>1\<close> is still live, in no free list, held by no caller and
  never deleted.
\<close>

theorem pop_loses_cell_under_push:
  "free_list (shared pop_races_push) 0 [1, 2] \<and>
   (let s = run T8 [0, 0, 1, 1, 1, 0, 0] pop_races_push in
      threads s 0 = Alloc_done 3 \<and> threads s 1 = Dealloc_done \<and>
      free_list (shared s) 0 [2] \<and>
      nodes (shared s) 1 = Some \<lparr>un = Next 2, pool = 0\<rparr> \<and>
      sys_calls (shared s) = sys_calls (shared pop_races_push))"
  by (simp add: pop_races_push_def two_cached_one_held_def sched_def load_def set_next_def
      compare_exchange_weak_def store_def free_list_def Let_def)

text \<open>
  C10. \<^verbatim>\<open>allocate(0)\<close> takes the bulk path: it asks the system allocator for
  \<^verbatim>\<open>0 * sizeof(Node)\<close>, that is zero, bytes and returns the answer. Sentinels and
  cells stay as they were, so no cell with a back-reference is made.
\<close>

theorem allocate_zero_bulk_path:
  "allocate T self 0 r st =
     (case r of
        None \<Rightarrow> Inl bad_alloc
      | Some a \<Rightarrow> Inr (a, st\<lparr>sys_calls := sys_calls st @ [New 0 a]\<rparr>))"
  by (simp add: allocate_def operator_new_def)

end
